theory Spec2Isabelle
  imports Main
begin

section \<open>Strings and the built-in string operations the router uses\<close>

text \<open>
  A JavaScript string is modelled as a \<open>string\<close> (a list of 8-bit characters), which
  covers the strings whose code units are below 256. The operations below are the
  ECMAScript built-ins that \<open>Router\<close> calls: \<open>startsWith\<close>, \<open>endsWith\<close>,
  \<open>slice(0, -1)\<close>, \<open>slice(1)\<close>, \<open>split\<close> and \<open>toUpperCase\<close>.
\<close>

definition startsWith :: "string \<Rightarrow> string \<Rightarrow> bool" where
  "startsWith s p = (take (length p) s = p)"

definition endsWith :: "string \<Rightarrow> string \<Rightarrow> bool" where
  "endsWith s p = (length p \<le> length s \<and> drop (length s - length p) s = p)"

text \<open>\<open>s.slice(0, -1)\<close>: everything but the last code unit (the empty string stays empty).\<close>

definition slice_0_m1 :: "string \<Rightarrow> string" where
  "slice_0_m1 s = butlast s"

text \<open>\<open>s.slice(1)\<close>: everything but the first code unit.\<close>

definition slice_1 :: "string \<Rightarrow> string" where
  "slice_1 s = drop 1 s"

text \<open>
  \<open>s.split(sep)\<close> for a one-character separator: the pieces between the separators;
  the empty string gives one empty piece.
\<close>

fun split :: "char \<Rightarrow> string \<Rightarrow> string list" where
  "split sep [] = [[]]"
| "split sep (c # cs) =
     (if c = sep then [] # split sep cs
      else (case split sep cs of
              [] \<Rightarrow> [[c]]
            | piece # pieces \<Rightarrow> (c # piece) # pieces))"

text \<open>
  \<open>toUpperCase\<close>, character by character: the letters \<open>a\<close> to \<open>z\<close> and the
  Latin-1 letters U+00E0 to U+00FE (without the division sign U+00F7) become the
  capital 32 places before them, the sharp s (U+00DF) becomes \<open>SS\<close>, and every
  other character stays. The capitals of the micro sign (U+00B5) and of y with
  diaeresis (U+00FF) lie beyond U+00FF: a string with one of these two letters has
  no upper case among the strings modelled here, and the model leaves the letter as
  it is.
\<close>

definition upperChar :: "char \<Rightarrow> string" where
  "upperChar c =
     (let n = (of_char c :: nat)
      in if 97 \<le> n \<and> n \<le> 122 then [char_of (n - 32)]
         else if n = 223 then ''SS''
         else if 224 \<le> n \<and> n \<le> 254 \<and> n \<noteq> 247 then [char_of (n - 32)]
         else [c])"

definition toUpperCase :: "string \<Rightarrow> string" where
  "toUpperCase s = concat (map upperChar s)"

section \<open>Pattern compiler\<close>

subsection \<open>normalizePath\<close>

text \<open>
  \<^verbatim>\<open>
  normalizePath(path) {
    if (!path.startsWith("/")) path = "/" + path;
    if (path !== "/" && path.endsWith("/")) path = path.slice(0, -1);
    return path;
  }
  \<close>
\<close>

definition normalizePath :: "string \<Rightarrow> string" where
  "normalizePath path =
     (let path1 = (if \<not> startsWith path ''/'' then ''/'' @ path else path);
          path2 = (if path1 \<noteq> ''/'' \<and> endsWith path1 ''/'' then slice_0_m1 path1 else path1)
      in path2)"

subsection \<open>extractParams\<close>

text \<open>
  \<^verbatim>\<open>
  extractParams(path) {
    const params = [];
    const segments = path.split("/");
    segments.forEach((segment) => {
      if (segment.startsWith(":")) params.push(segment.slice(1));
    });
    return params;
  }
  \<close>
\<close>

definition extractParams :: "string \<Rightarrow> string list" where
  "extractParams path =
     map slice_1 (filter (\<lambda>segment. startsWith segment '':'') (split CHR ''/'' path))"

subsection \<open>pathToRegex: the two replacements\<close>

text \<open>\<open>\w\<close> of a regular expression: letters, digits and the underscore.\<close>

definition isWord :: "char \<Rightarrow> bool" where
  "isWord c =
     (let n = (of_char c :: nat)
      in (48 \<le> n \<and> n \<le> 57) \<or> (65 \<le> n \<and> n \<le> 90) \<or> (97 \<le> n \<and> n \<le> 122) \<or> n = 95)"

text \<open>
  \<open>path.replace(/\/:(\w+)/g, "/([^/]+)")\<close>: scanning from the left, each occurrence of
  \<open>/:\<close> followed by at least one word character is replaced, together with the
  longest run of word characters after it, by the text \<open>/([^/]+)\<close>; the scan goes on
  after the replaced text. The replacement text has no \<open>$\<close>, so it is inserted as is.
\<close>

function replaceParams :: "string \<Rightarrow> string" where
  "replaceParams [] = []"
| "replaceParams (c # cs) =
     (case cs of
        d # e # rest \<Rightarrow>
          if c = CHR ''/'' \<and> d = CHR '':'' \<and> isWord e
          then ''/([^/]+)'' @ replaceParams (dropWhile isWord rest)
          else c # replaceParams cs
      | _ \<Rightarrow> c # replaceParams cs)"
  by pat_completeness auto
termination
  by (relation "measure length")
     (auto simp: less_Suc_eq_le intro: le_trans [OF length_dropWhile_le])

text \<open>\<open>.replace(/\*/g, ".*")\<close>: every \<open>*\<close> becomes \<open>.*\<close>.\<close>

definition replaceStars :: "string \<Rightarrow> string" where
  "replaceStars s = concat (map (\<lambda>c. if c = CHR ''*'' then ''.*'' else [c]) s)"

subsection \<open>The regular expressions that pathToRegex builds\<close>

text \<open>
  \<open>new RegExp(`^${pattern}$`)\<close> parses its argument as a regular expression. The model
  covers the patterns made of
  \<^item> a literal character (any character that is not one of the syntax characters
    \<open>^ $ \ . * + ? ( ) [ ] { } |\<close>),
  \<^item> \<open>.\<close>, which matches one character that is not a line terminator,
  \<^item> \<open>.*\<close>, the greedy repetition of \<open>.\<close>,
  \<^item> the capturing group \<open>([^/]+)\<close>, the greedy repetition, at least once, of a
    character that is not \<open>/\<close>,
  between the anchors \<open>^\<close> and \<open>$\<close>. On every other pattern \<open>RegExp_new\<close> is
  \<open>None\<close>, which stands for "not described by this model": the constructor may
  throw a SyntaxError there (as for \<open>/a(b\<close>), or build a matcher from syntax beyond
  the fragment (as for \<open>/a+b\<close> or \<open>/v(1|2)\<close>). Nothing below says what the router
  does with such a pattern; the functions that meet one stop with a result that is
  marked as outside the model.
\<close>

datatype tok = TChar char | TDot | TDotStar | TGroup

definition syntaxChars :: "char list" where
  "syntaxChars = ''^$.*+?()[]{}|'' @ [CHR 0x5C]"

function parseBody :: "string \<Rightarrow> tok list option" where
  "parseBody [] = Some []"
| "parseBody (c # cs) =
     (if c = CHR ''(''
      then (if startsWith cs ''[^/]+)''
            then map_option (Cons TGroup) (parseBody (drop 6 cs))
            else None)
      else if c = CHR ''.''
      then (case cs of
              d # cs' \<Rightarrow>
                if d = CHR ''*'' then map_option (Cons TDotStar) (parseBody cs')
                else map_option (Cons TDot) (parseBody cs)
            | [] \<Rightarrow> map_option (Cons TDot) (parseBody cs))
      else if c \<in> set syntaxChars then None
      else map_option (Cons (TChar c)) (parseBody cs))"
  by pat_completeness auto
termination
  by (relation "measure length") auto

definition RegExp_new :: "string \<Rightarrow> tok list option" where
  "RegExp_new src =
     (case src of
        [] \<Rightarrow> None
      | c # rest \<Rightarrow>
          if c = CHR ''^'' \<and> endsWith rest ''$'' then parseBody (slice_0_m1 rest) else None)"

text \<open>
  \<^verbatim>\<open>
  pathToRegex(path) {
    const pattern = path
      .replace(/\/:(\w+)/g, "/([^/]+)")
      .replace(/\*/g, ".*");
    return new RegExp(`^${pattern}$`);
  }
  \<close>
\<close>

definition pathToRegex :: "string \<Rightarrow> tok list option" where
  "pathToRegex path =
     (let pattern = replaceStars (replaceParams path)
      in RegExp_new (''^'' @ pattern @ ''$''))"

subsection \<open>Matching\<close>

text \<open>
  The line terminators that \<open>.\<close> refuses: LF and CR (U+2028 and U+2029 are not 8-bit
  characters).
\<close>

definition isLineTerminator :: "char \<Rightarrow> bool" where
  "isLineTerminator c = (c = CHR 0x0A \<or> c = CHR 0x0D)"

text \<open>
  The ways a greedy repetition of the character class \<open>P\<close> can consume a prefix of the
  input, in the order the backtracking matcher tries them: the longest prefix first,
  the empty prefix last. Each is the consumed prefix with the rest of the input.
\<close>

fun greedySplits :: "(char \<Rightarrow> bool) \<Rightarrow> string \<Rightarrow> (string \<times> string) list" where
  "greedySplits P [] = [([], [])]"
| "greedySplits P (x # xs) =
     (if P x then map (\<lambda>(a, b). (x # a, b)) (greedySplits P xs) else []) @ [([], x # xs)]"

fun firstSome :: "('a \<Rightarrow> 'b option) \<Rightarrow> 'a list \<Rightarrow> 'b option" where
  "firstSome f [] = None"
| "firstSome f (x # xs) = (case f x of Some y \<Rightarrow> Some y | None \<Rightarrow> firstSome f xs)"

text \<open>
  Matching a compiled pattern against a whole string (the pattern is anchored at both
  ends): \<open>None\<close> when it does not match, otherwise the captured substrings, one for
  each group, left to right. Alternatives are tried depth first, as ECMAScript's
  backtracking matcher does.
\<close>

fun rxExec :: "tok list \<Rightarrow> string \<Rightarrow> string list option" where
  "rxExec [] s = (if s = [] then Some [] else None)"
| "rxExec (TChar c # ts) s =
     (case s of [] \<Rightarrow> None | x # xs \<Rightarrow> if x = c then rxExec ts xs else None)"
| "rxExec (TDot # ts) s =
     (case s of [] \<Rightarrow> None | x # xs \<Rightarrow> if isLineTerminator x then None else rxExec ts xs)"
| "rxExec (TDotStar # ts) s =
     firstSome (\<lambda>(a, b). rxExec ts b) (greedySplits (\<lambda>c. \<not> isLineTerminator c) s)"
| "rxExec (TGroup # ts) s =
     firstSome (\<lambda>(a, b). map_option (Cons a) (rxExec ts b))
       (filter (\<lambda>(a, b). a \<noteq> []) (greedySplits (\<lambda>c. c \<noteq> CHR ''/'') s))"

text \<open>\<open>regex.test(s)\<close>.\<close>

definition rxTest :: "tok list \<Rightarrow> string \<Rightarrow> bool" where
  "rxTest rx s = (rxExec rx s \<noteq> None)"

text \<open>
  \<open>s.match(regex)\<close> for a regular expression without the \<open>g\<close> flag: \<open>null\<close> or the
  array of the whole match followed by the captures.
\<close>

definition str_match :: "string \<Rightarrow> tok list \<Rightarrow> string list option" where
  "str_match s rx = map_option (Cons s) (rxExec rx s)"

section \<open>JavaScript values and objects\<close>

text \<open>
  The values the dispatcher handles: \<open>undefined\<close>, \<open>null\<close>, booleans, strings, and a
  property that a plain object inherits from \<open>Object.prototype\<close> (a function or an
  object, named by its property name).
\<close>

datatype jsval = JUndefined | JNull | JBool bool | JStr string | JInherited string

text \<open>Truthiness, as \<open>if (v)\<close> tests it.\<close>

fun truthy :: "jsval \<Rightarrow> bool" where
  "truthy JUndefined = False"
| "truthy JNull = False"
| "truthy (JBool b) = b"
| "truthy (JStr s) = (s \<noteq> [])"
| "truthy (JInherited n) = True"

text \<open>
  The object \<open>params = {}\<close> that \<open>match\<close> fills: its own properties, in the order
  JavaScript lists them. It is created by an object literal, so its prototype is \<open>Object.prototype\<close>,
  and reading a name that is not an own property finds the properties of
  \<open>Object.prototype\<close>.
\<close>

type_synonym obj = "(string \<times> jsval) list"

definition objectPrototypeNames :: "string list" where
  "objectPrototypeNames =
     [''constructor'', ''__defineGetter__'', ''__defineSetter__'', ''hasOwnProperty'',
      ''__lookupGetter__'', ''__lookupSetter__'', ''isPrototypeOf'',
      ''propertyIsEnumerable'', ''toString'', ''valueOf'', ''__proto__'',
      ''toLocaleString'']"

text \<open>\<open>o[k]\<close>.\<close>

definition objGet :: "obj \<Rightarrow> string \<Rightarrow> jsval" where
  "objGet o' k =
     (case map_of o' k of
        Some v \<Rightarrow> v
      | None \<Rightarrow> if k \<in> set objectPrototypeNames then JInherited k else JUndefined)"

text \<open>A keyed store that keeps insertion order: a new key goes to the end, an existing
  key keeps its place and takes the new value (\<open>Map.prototype.set\<close>).\<close>

fun setKey :: "string \<Rightarrow> 'v \<Rightarrow> (string \<times> 'v) list \<Rightarrow> (string \<times> 'v) list" where
  "setKey k v [] = [(k, v)]"
| "setKey k v ((k', v') # kvs) =
     (if k' = k then (k, v) # kvs else (k', v') # setKey k v kvs)"

text \<open>
  The order of the own properties of an object: the names that are array indices
  (the decimal numerals, without leading zeros, of the numbers below \<open>2^32 - 1\<close>)
  come first, in ascending numeric order, then the other names in the order of their
  creation.
\<close>

definition isDigit :: "char \<Rightarrow> bool" where
  "isDigit c = (let n = (of_char c :: nat) in 48 \<le> n \<and> n \<le> 57)"

text \<open>The order of two decimal numerals without leading zeros: the shorter is the
  smaller, and numerals of one length are ordered digit by digit.\<close>

fun digitsLess :: "string \<Rightarrow> string \<Rightarrow> bool" where
  "digitsLess (x # xs) (y # ys) =
     ((of_char x :: nat) < of_char y \<or> (x = y \<and> digitsLess xs ys))"
| "digitsLess _ _ = False"

definition numeralLess :: "string \<Rightarrow> string \<Rightarrow> bool" where
  "numeralLess a b = (length a < length b \<or> (length a = length b \<and> digitsLess a b))"

text \<open>The largest array index is \<open>2^32 - 2\<close>, that is \<open>4294967294\<close>.\<close>

definition isArrayIndex :: "string \<Rightarrow> bool" where
  "isArrayIndex k =
     (case k of
        [] \<Rightarrow> False
      | c # cs \<Rightarrow>
          list_all isDigit k \<and> (c \<noteq> CHR ''0'' \<or> cs = []) \<and>
          \<not> numeralLess ''4294967294'' k)"

text \<open>A new array-index name goes before the first name that is not an array index or
  is a larger one.\<close>

fun insertIndexed :: "string \<Rightarrow> jsval \<Rightarrow> obj \<Rightarrow> obj" where
  "insertIndexed k v [] = [(k, v)]"
| "insertIndexed k v ((k', v') # kvs) =
     (if isArrayIndex k' \<and> numeralLess k' k
      then (k', v') # insertIndexed k v kvs
      else (k, v) # (k', v') # kvs)"

text \<open>
  \<open>o[k] = v\<close> for a string or \<open>undefined\<close> \<open>v\<close>. Assigning to \<open>__proto__\<close> runs the
  setter of \<open>Object.prototype\<close>, which ignores a value that is neither an object nor
  \<open>null\<close>: no own property is created. An existing own property keeps its place
  and takes the new value; a new one is created at its place in the order above.
\<close>

definition objSet :: "obj \<Rightarrow> string \<Rightarrow> jsval \<Rightarrow> obj" where
  "objSet o' k v =
     (if k = ''__proto__'' then o'
      else if k \<in> set (map fst o') then setKey k v o'
      else if isArrayIndex k then insertIndexed k v o'
      else setKey k v o')"

text \<open>\<open>arr[i]\<close> on an array of strings: \<open>undefined\<close> beyond the end.\<close>

definition arrGet :: "string list \<Rightarrow> nat \<Rightarrow> jsval" where
  "arrGet arr i = (if i < length arr then JStr (arr ! i) else JUndefined)"

section \<open>The router\<close>

record 'h route =
  handler :: 'h
  params :: "string list"
  regex :: "tok list"

record 'h middleware =
  mw_path :: string
  mw_handler :: 'h

text \<open>
  \<open>routes\<close> and \<open>paramHandlers\<close> are JavaScript \<open>Map\<close>s, which iterate in insertion
  order; \<open>middlewares\<close> is an array.
\<close>

record 'h router =
  routes :: "(string \<times> 'h route) list"
  middlewares :: "'h middleware list"
  paramHandlers :: "(string \<times> 'h) list"

definition newRouter :: "'h router" where
  "newRouter = \<lparr>routes = [], middlewares = [], paramHandlers = []\<rparr>"

text \<open>
  How a call of \<open>add\<close> ends other than by returning: \<open>RouteExists\<close> is its own
  \<open>Error(`Route ${method} ${path} already exists`)\<close>, with the method and path it
  was called with. \<open>OutsideFragment\<close> is not an error of the program: it marks a
  call whose pattern the model does not describe, and says nothing about what the
  code does there.
\<close>

datatype error = RouteExists string string | OutsideFragment string

text \<open>\<open>this.routes.has(key)\<close>.\<close>

definition has :: "(string \<times> 'v) list \<Rightarrow> string \<Rightarrow> bool" where
  "has m k = (k \<in> set (map fst m))"

text \<open>
  \<^verbatim>\<open>
  add(method, path, handler) {
    const normalizedPath = this.normalizePath(path);
    const key = `${method.toUpperCase()}:${normalizedPath}`;
    if (this.routes.has(key)) {
      throw new Error(`Route ${method} ${path} already exists`);
    }
    this.routes.set(key, {
      handler,
      params: this.extractParams(normalizedPath),
      regex: this.pathToRegex(normalizedPath),
    });
  }
  \<close>
  The result is how the call ended (\<open>None\<close>: it returned) and the router after the
  call.
\<close>

definition add :: "'h router \<Rightarrow> string \<Rightarrow> string \<Rightarrow> 'h \<Rightarrow> error option \<times> 'h router" where
  "add r method path h =
     (let normalizedPath = normalizePath path;
          key = toUpperCase method @ '':'' @ normalizedPath
      in if has (routes r) key then (Some (RouteExists method path), r)
         else (case pathToRegex normalizedPath of
                 None \<Rightarrow> (Some (OutsideFragment normalizedPath), r)
               | Some rx \<Rightarrow>
                   (None,
                    r\<lparr>routes :=
                        setKey key
                          \<lparr>handler = h, params = extractParams normalizedPath, regex = rx\<rparr>
                          (routes r)\<rparr>)))"

definition get :: "'h router \<Rightarrow> string \<Rightarrow> 'h \<Rightarrow> error option \<times> 'h router" where
  "get r path h = add r ''GET'' path h"

definition post :: "'h router \<Rightarrow> string \<Rightarrow> 'h \<Rightarrow> error option \<times> 'h router" where
  "post r path h = add r ''POST'' path h"

definition put :: "'h router \<Rightarrow> string \<Rightarrow> 'h \<Rightarrow> error option \<times> 'h router" where
  "put r path h = add r ''PUT'' path h"

definition delete :: "'h router \<Rightarrow> string \<Rightarrow> 'h \<Rightarrow> error option \<times> 'h router" where
  "delete r path h = add r ''DELETE'' path h"

text \<open>
  \<^verbatim>\<open>
  use(path, ...handlers) {
    if (typeof path === "function") {
      this.middlewares.push({ path: "/*", handler: path });
    } else {
      handlers.forEach((handler) => { this.middlewares.push({ path, handler }); });
    }
  }
  \<close>
\<close>

datatype 'h useArg = Function 'h | Path string

definition use :: "'h router \<Rightarrow> 'h useArg \<Rightarrow> 'h list \<Rightarrow> 'h router" where
  "use r path handlers =
     (case path of
        Function f \<Rightarrow>
          r\<lparr>middlewares := middlewares r @ [\<lparr>mw_path = ''/*'', mw_handler = f\<rparr>]\<rparr>
      | Path p \<Rightarrow>
          r\<lparr>middlewares :=
              middlewares r @ map (\<lambda>h. \<lparr>mw_path = p, mw_handler = h\<rparr>) handlers\<rparr>)"

text \<open>\<open>param(name, handler) { this.paramHandlers.set(name, handler); }\<close>\<close>

definition param :: "'h router \<Rightarrow> string \<Rightarrow> 'h \<Rightarrow> 'h router" where
  "param r name h = r\<lparr>paramHandlers := setKey name h (paramHandlers r)\<rparr>"

subsection \<open>match\<close>

record 'h matchResult =
  m_handler :: 'h
  m_params :: obj

text \<open>
  \<open>route.params.forEach((param, index) => { params[param] = match[index + 1]; })\<close>,
  from index \<open>index\<close> on.
\<close>

fun bindParams :: "string list \<Rightarrow> nat \<Rightarrow> string list \<Rightarrow> obj \<Rightarrow> obj" where
  "bindParams [] index m ps = ps"
| "bindParams (name # rest) index m ps =
     bindParams rest (index + 1) m (objSet ps name (arrGet m (index + 1)))"

text \<open>\<open>const [routeMethod, routePath] = key.split(":")\<close>: the first piece.\<close>

definition routeMethod :: "string \<Rightarrow> string" where
  "routeMethod key = (case split CHR '':'' key of [] \<Rightarrow> [] | m # _ \<Rightarrow> m)"

text \<open>The \<open>for (const [key, route] of this.routes)\<close> loop of \<open>match\<close>.\<close>

fun scan :: "string \<Rightarrow> string \<Rightarrow> (string \<times> 'h route) list \<Rightarrow> 'h matchResult option" where
  "scan methodUpper urlPath [] = None"
| "scan methodUpper urlPath ((key, route) # rest) =
     (if routeMethod key \<noteq> methodUpper then scan methodUpper urlPath rest
      else (case str_match urlPath (regex route) of
              Some m \<Rightarrow>
                Some \<lparr>m_handler = handler route, m_params = bindParams (params route) 0 m []\<rparr>
            | None \<Rightarrow> scan methodUpper urlPath rest))"

text \<open>
  \<^verbatim>\<open>
  match(method, urlPath) {
    const methodUpper = method.toUpperCase();
    // Check exact match first
    const exactKey = `${methodUpper}:${urlPath}`;
    if (this.routes.has(exactKey)) {
      return { handler: this.routes.get(exactKey).handler, params: {} };
    }
    // Check pattern matches
    for (const [key, route] of this.routes) { ... }
    return null;
  }
  \<close>
\<close>

definition match :: "'h router \<Rightarrow> string \<Rightarrow> string \<Rightarrow> 'h matchResult option" where
  "match r method urlPath =
     (let methodUpper = toUpperCase method;
          exactKey = methodUpper @ '':'' @ urlPath
      in (case map_of (routes r) exactKey of
            Some route \<Rightarrow> Some \<lparr>m_handler = handler route, m_params = []\<rparr>
          | None \<Rightarrow> scan methodUpper urlPath (routes r)))"

section \<open>The dispatcher\<close>

subsection \<open>JSON.stringify on an object of strings\<close>

text \<open>
  \<open>JSON.stringify\<close> writes the own properties in insertion order, each name and
  each string value quoted: \<open>"\<close> and the backslash are escaped with a backslash,
  the control characters below U+0020 are written \<open>\b\<close>, \<open>\t\<close>, \<open>\n\<close>, \<open>\f\<close>,
  \<open>\r\<close> or \<open>\u00XX\<close> (lowercase hexadecimal), every other character is itself.
\<close>

definition dquote :: char where
  "dquote = CHR 0x22"

definition bslash :: char where
  "bslash = CHR 0x5C"

definition hexDigit :: "nat \<Rightarrow> char" where
  "hexDigit n = (if n < 10 then char_of (48 + n) else char_of (87 + n))"

definition jsonEscape :: "char \<Rightarrow> string" where
  "jsonEscape c =
     (let n = (of_char c :: nat)
      in if c = dquote then [bslash, dquote]
         else if c = bslash then [bslash, bslash]
         else if n = 8 then [bslash, CHR ''b'']
         else if n = 9 then [bslash, CHR ''t'']
         else if n = 10 then [bslash, CHR ''n'']
         else if n = 12 then [bslash, CHR ''f'']
         else if n = 13 then [bslash, CHR ''r'']
         else if n < 32 then [bslash, CHR ''u'', CHR ''0'', CHR ''0'',
                              hexDigit (n div 16), hexDigit (n mod 16)]
         else [c])"

definition jsonQuote :: "string \<Rightarrow> string" where
  "jsonQuote s = [dquote] @ concat (map jsonEscape s) @ [dquote]"

fun joinComma :: "string list \<Rightarrow> string" where
  "joinComma [] = []"
| "joinComma [x] = x"
| "joinComma (x # y # ys) = x @ '','' @ joinComma (y # ys)"

definition JSON_stringify :: "(string \<times> string) list \<Rightarrow> string" where
  "JSON_stringify props =
     ''{'' @ joinComma (map (\<lambda>(k, v). jsonQuote k @ '':'' @ jsonQuote v) props) @ ''}''"

subsection \<open>Handlers and their effects\<close>

text \<open>
  A handler is known by an identity of type \<open>'h\<close>; what calling it does is given by
  the environment. \<open>'w\<close> is the state that handlers read and change (the request and
  response objects and whatever else they reach), \<open>'x\<close> is what a handler can throw.
  Each call gives the value the awaited call produced, or what it threw, and the state
  after it.
  \<^item> \<open>callMiddleware h w\<close> is \<open>await h(req, res)\<close> before any route was matched.
  \<^item> \<open>callMatched h extra (ps, w)\<close> is \<open>await h(req, res, ...extra)\<close> after
    \<open>req.params = match.params\<close>: the handler can reach, and change, the object \<open>ps\<close>
    that \<open>match.params\<close> refers to.
  The router itself is not changed while a request is dispatched.
\<close>

record ('h, 'w, 'x) env =
  callMiddleware :: "'h \<Rightarrow> 'w \<Rightarrow> ('x + jsval) \<times> 'w"
  callMatched :: "'h \<Rightarrow> jsval list \<Rightarrow> obj \<times> 'w \<Rightarrow> ('x + jsval) \<times> (obj \<times> 'w)"

text \<open>
  What a dispatch does, in order: the handlers it calls, each with its role and the
  arguments after \<open>req\<close> and \<open>res\<close>, and its own calls of \<open>res.writeHead\<close> and
  \<open>res.end\<close>.
\<close>

datatype role = Middleware | ParamHook | RouteHandler

datatype 'h event =
    Call role 'h "jsval list"
  | WriteHead nat "(string \<times> string) list"
  | End string

text \<open>
  What leaves \<open>handle\<close> other than a return: what a handler threw, or, outside the
  model, a middleware pattern that the model does not describe.
\<close>

datatype 'x thrown = HandlerThrew 'x | PatternOutsideFragment string

text \<open>How the middleware loop ends: it runs off its end, \<open>handle\<close> returns from inside
  it, or something is thrown.\<close>

datatype 'x loopExit = Next | Return | Throw "'x thrown"

text \<open>
  \<^verbatim>\<open>
  for (const mw of this.middlewares) {
    const normalizedPath = this.normalizePath(mw.path);
    const regex = this.pathToRegex(normalizedPath);
    if (regex.test(pathname)) {
      const shouldContinue = await mw.handler(req, res);
      if (shouldContinue === false) return;
    }
  }
  \<close>
\<close>

fun runMiddlewares ::
  "('h, 'w, 'x) env \<Rightarrow> string \<Rightarrow> 'h middleware list \<Rightarrow> 'w \<Rightarrow> 'x loopExit \<times> 'w \<times> 'h event list"
where
  "runMiddlewares env pathname [] w = (Next, w, [])"
| "runMiddlewares env pathname (mw # mws) w =
     (let normalizedPath = normalizePath (mw_path mw)
      in case pathToRegex normalizedPath of
           None \<Rightarrow> (Throw (PatternOutsideFragment normalizedPath), w, [])
         | Some rx \<Rightarrow>
             if rxTest rx pathname
             then (case callMiddleware env (mw_handler mw) w of
                     (Inl x, w') \<Rightarrow>
                       (Throw (HandlerThrew x), w', [Call Middleware (mw_handler mw) []])
                   | (Inr shouldContinue, w') \<Rightarrow>
                       if shouldContinue = JBool False
                       then (Return, w', [Call Middleware (mw_handler mw) []])
                       else (case runMiddlewares env pathname mws w' of
                               (exit, w'', evs) \<Rightarrow>
                                 (exit, w'', Call Middleware (mw_handler mw) [] # evs)))
             else runMiddlewares env pathname mws w)"

text \<open>
  \<^verbatim>\<open>
  for (const [paramName, handler] of this.paramHandlers) {
    if (match.params[paramName]) {
      await handler(req, res, match.params[paramName], paramName);
    }
  }
  \<close>
\<close>

fun runParamHandlers ::
  "('h, 'w, 'x) env \<Rightarrow> (string \<times> 'h) list \<Rightarrow> obj \<times> 'w \<Rightarrow>
     'x thrown option \<times> (obj \<times> 'w) \<times> 'h event list"
where
  "runParamHandlers env [] st = (None, st, [])"
| "runParamHandlers env ((paramName, h) # rest) st =
     (if truthy (objGet (fst st) paramName)
      then (let args = [objGet (fst st) paramName, JStr paramName]
            in case callMatched env h args st of
                 (Inl x, st') \<Rightarrow> (Some (HandlerThrew x), st', [Call ParamHook h args])
               | (Inr _, st') \<Rightarrow>
                   (case runParamHandlers env rest st' of
                      (t, st'', evs) \<Rightarrow> (t, st'', Call ParamHook h args # evs)))
      else runParamHandlers env rest st)"

text \<open>
  The request, as \<open>handle\<close> reads it: \<open>req.method\<close> and the \<open>pathname\<close> that
  \<open>url.parse(req.url, true)\<close> gives. Both are read once, before the first middleware
  runs.
\<close>

record request =
  req_method :: string
  req_pathname :: string

text \<open>How the promise that \<open>handle\<close> returns settles.\<close>

datatype 'x completion = Resolved | Rejected "'x thrown"

text \<open>
  \<^verbatim>\<open>
  async handle(req, res) {
    const parsedUrl = url.parse(req.url, true);
    const pathname = parsedUrl.pathname;
    const method = req.method;
    for (const mw of this.middlewares) { ... }
    const match = this.match(method, pathname);
    if (match) {
      req.params = match.params;
      for (const [paramName, handler] of this.paramHandlers) { ... }
      await match.handler(req, res);
    } else {
      res.writeHead(404, { "Content-Type": "application/json" });
      res.end(JSON.stringify({ error: "Not Found",
                               message: `Route ${pathname} not found` }));
    }
  }
  \<close>
\<close>

definition notFoundBody :: "string \<Rightarrow> string" where
  "notFoundBody pathname =
     JSON_stringify
       [(''error'', ''Not Found''), (''message'', ''Route '' @ pathname @ '' not found'')]"

definition handle ::
  "('h, 'w, 'x) env \<Rightarrow> 'h router \<Rightarrow> request \<Rightarrow> 'w \<Rightarrow> 'x completion \<times> 'w \<times> 'h event list"
where
  "handle env r req w =
     (let pathname = req_pathname req;
          method = req_method req
      in case runMiddlewares env pathname (middlewares r) w of
           (Throw t, w1, evs) \<Rightarrow> (Rejected t, w1, evs)
         | (Return, w1, evs) \<Rightarrow> (Resolved, w1, evs)
         | (Next, w1, evs) \<Rightarrow>
             (case match r method pathname of
                Some m \<Rightarrow>
                  (case runParamHandlers env (paramHandlers r) (m_params m, w1) of
                     (Some t, (ps, w2), evs2) \<Rightarrow> (Rejected t, w2, evs @ evs2)
                   | (None, st2, evs2) \<Rightarrow>
                       (case callMatched env (m_handler m) [] st2 of
                          (Inl x, (ps, w3)) \<Rightarrow>
                            (Rejected (HandlerThrew x), w3,
                             evs @ evs2 @ [Call RouteHandler (m_handler m) []])
                        | (Inr _, (ps, w3)) \<Rightarrow>
                            (Resolved, w3,
                             evs @ evs2 @ [Call RouteHandler (m_handler m) []])))
              | None \<Rightarrow>
                  (Resolved, w1,
                   evs @ [WriteHead 404 [(''Content-Type'', ''application/json'')],
                          End (notFoundBody pathname)])))"

section \<open>Notions used in the statements\<close>

text \<open>A route accepts a request: its key carries the method and its matcher accepts
  the path.\<close>

definition accepts :: "string \<Rightarrow> string \<Rightarrow> string \<times> 'h route \<Rightarrow> bool" where
  "accepts methodUpper urlPath entry =
     (routeMethod (fst entry) = methodUpper \<and> rxTest (regex (snd entry)) urlPath)"

text \<open>The number of capturing groups of a compiled pattern.\<close>

definition groupCount :: "tok list \<Rightarrow> nat" where
  "groupCount rx = length (filter (\<lambda>t. t = TGroup) rx)"

text \<open>A character that \<open>JSON.stringify\<close> writes as itself.\<close>

definition plainChar :: "char \<Rightarrow> bool" where
  "plainChar c = (c \<noteq> dquote \<and> c \<noteq> bslash \<and> 32 \<le> (of_char c :: nat))"

text \<open>
  The body of the not-found response as the specification writes it: the text
  \<open>{"error":"Not Found","message":"Route <path> not found"}\<close> with the path put in
  as it is.
\<close>

definition withQuotes :: "string \<Rightarrow> string" where
  "withQuotes s = [dquote] @ s @ [dquote]"

definition specNotFoundBody :: "string \<Rightarrow> string" where
  "specNotFoundBody path =
     ''{'' @ withQuotes ''error'' @ '':'' @ withQuotes ''Not Found'' @ '','' @
     withQuotes ''message'' @ '':'' @ withQuotes (''Route '' @ path @ '' not found'') @ ''}''"

text \<open>
  An environment for the concrete runs: handlers are numbers, the state is the list of
  the handlers called so far, nothing throws, and the only handler that returns
  \<open>false\<close> is handler \<open>0\<close>.
\<close>

definition demoEnv :: "(nat, nat list, unit) env" where
  "demoEnv =
     \<lparr>callMiddleware = (\<lambda>h w. (Inr (if h = 0 then JBool False else JUndefined), w @ [h])),
      callMatched = (\<lambda>h args st. (Inr JUndefined, (fst st, snd st @ [h])))\<rparr>"

text \<open>
  Routers for the concrete runs. \<open>guardedRouter\<close>: the route \<open>GET /users/:id\<close>
  (handler 5), the middleware 3, 0 and 4 for every path, in this order, and the hook 7
  for the parameter \<open>id\<close>. \<open>openRouter\<close>: the same route and hook with the
  middleware 3 only.
\<close>

definition guardedRouter :: "nat router" where
  "guardedRouter =
     param (use (use (snd (add newRouter ''GET'' ''/users/:id'' 5)) (Function 3) [])
              (Path ''/*'') [0, 4])
       ''id'' 7"

definition openRouter :: "nat router" where
  "openRouter =
     param (use (snd (add newRouter ''GET'' ''/users/:id'' 5)) (Function 3) []) ''id'' 7"

text \<open>A value that is \<open>undefined\<close> or a non-empty string without \<open>/\<close>.\<close>

definition segmentOrUndefined :: "jsval \<Rightarrow> bool" where
  "segmentOrUndefined v =
     (case v of
        JUndefined \<Rightarrow> True
      | JStr s \<Rightarrow> s \<noteq> [] \<and> CHR ''/'' \<notin> set s
      | _ \<Rightarrow> False)"

text \<open>
  \<open>hookRouter\<close>: the route \<open>GET /users\<close> (handler 5), which declares no parameter,
  and the hook 7 for the parameter name \<open>constructor\<close>. \<open>atUserRouter\<close>: the route
  \<open>GET /:@user/:id\<close> (handler 5) and the hook 7 for the parameter \<open>id\<close>.
\<close>

definition hookRouter :: "nat router" where
  "hookRouter = param (snd (add newRouter ''GET'' ''/users'' 5)) ''constructor'' 7"

definition atUserRouter :: "nat router" where
  "atUserRouter = param (snd (add newRouter ''GET'' ''/:@user/:id'' 5)) ''id'' 7"

section \<open>Properties of normalizePath\<close>

lemma startsWith_slash: "startsWith s ''/'' \<longleftrightarrow> (\<exists>t. s = CHR ''/'' # t)"
  by (cases s) (auto simp: startsWith_def)

lemma endsWith_slash_last: "endsWith s ''/'' \<longleftrightarrow> (s \<noteq> [] \<and> last s = CHR ''/'')"
  by (cases s rule: rev_cases) (auto simp: endsWith_def)

lemma normalizePath_slash:
  "normalizePath (CHR ''/'' # t) =
     (if t \<noteq> [] \<and> last t = CHR ''/'' then CHR ''/'' # butlast t else CHR ''/'' # t)"
  by (simp add: normalizePath_def Let_def startsWith_slash endsWith_slash_last slice_0_m1_def)

lemma normalizePath_noslash:
  "\<not> startsWith p ''/'' \<Longrightarrow> normalizePath p = normalizePath (CHR ''/'' # p)"
  by (simp add: normalizePath_def Let_def startsWith_slash)

lemma normalizePath_startsWith: "startsWith (normalizePath p) ''/''"
proof (cases "startsWith p ''/''")
  case True
  then obtain t where "p = CHR ''/'' # t" by (auto simp: startsWith_slash)
  then show ?thesis by (simp add: normalizePath_slash startsWith_slash)
next
  case False
  then show ?thesis
    by (simp add: normalizePath_noslash normalizePath_slash startsWith_slash)
qed

lemma endsWith_2slash_snoc:
  "endsWith (t @ [c]) ''//'' \<longleftrightarrow> (c = CHR ''/'' \<and> t \<noteq> [] \<and> last t = CHR ''/'')"
  by (cases t rule: rev_cases) (auto simp: endsWith_def)

lemma normalizePath_fixed_slash:
  "normalizePath (CHR ''/'' # t) = CHR ''/'' # t \<longleftrightarrow>
     (t = [] \<or> \<not> endsWith (CHR ''/'' # t) ''/'')"
  by (cases t rule: rev_cases) (auto simp: normalizePath_slash endsWith_slash_last)

lemma idem_slash:
  "normalizePath (normalizePath (CHR ''/'' # t)) = normalizePath (CHR ''/'' # t) \<longleftrightarrow>
     (\<not> endsWith (CHR ''/'' # t) ''//'' \<or> t = ''/'')"
proof (cases t rule: rev_cases)
  case Nil
  then show ?thesis by (simp add: normalizePath_slash endsWith_def)
next
  case (snoc u c)
  show ?thesis
  proof (cases u rule: rev_cases)
    case Nil
    with snoc show ?thesis by (simp add: normalizePath_slash endsWith_def)
  next
    case (snoc v d)
    with \<open>t = u @ [c]\<close> have t: "t = v @ [d, c]" by simp
    have e: "endsWith (CHR ''/'' # t) ''//'' \<longleftrightarrow> (c = CHR ''/'' \<and> d = CHR ''/'')"
      using endsWith_2slash_snoc [of "CHR ''/'' # v @ [d]" c] by (simp add: t)
    show ?thesis
      unfolding e by (auto simp: t normalizePath_slash butlast_append)
  qed
qed

lemma normalizePath_idem_iff:
  "normalizePath (normalizePath p) = normalizePath p \<longleftrightarrow>
     (\<not> endsWith p ''//'' \<or> p = ''//'')"
proof (cases "startsWith p ''/''")
  case True
  then obtain t where p: "p = CHR ''/'' # t" by (auto simp: startsWith_slash)
  show ?thesis unfolding p using idem_slash [of t] by simp
next
  case False
  have n: "normalizePath p = normalizePath (CHR ''/'' # p)"
    using False by (rule normalizePath_noslash)
  have ne: "p \<noteq> ''//''" "p \<noteq> ''/''" using False by (auto simp: startsWith_slash)
  have e: "endsWith (CHR ''/'' # p) ''//'' \<longleftrightarrow> endsWith p ''//''"
  proof (cases p rule: rev_cases)
    case Nil then show ?thesis by (simp add: endsWith_def)
  next
    case (snoc u c)
    show ?thesis
      using endsWith_2slash_snoc [of "CHR ''/'' # u" c] endsWith_2slash_snoc [of u c] ne False
      by (cases u rule: rev_cases) (auto simp: snoc startsWith_slash)
  qed
  show ?thesis unfolding n using idem_slash [of p] ne by (simp add: e)
qed

lemma normalizePath_fixed_iff:
  "normalizePath (normalizePath p) = normalizePath p \<longleftrightarrow>
     (normalizePath p = ''/'' \<or> \<not> endsWith (normalizePath p) ''/'')"
proof -
  obtain t where t: "normalizePath p = CHR ''/'' # t"
    using normalizePath_startsWith [of p] by (auto simp: startsWith_slash)
  show ?thesis unfolding t using normalizePath_fixed_slash [of t] by simp
qed

text \<open>
  Claim C2, as the code has it. \<open>normalizePath\<close> is a total function and its result
  always starts with \<open>/\<close>. It strips one trailing \<open>/\<close>, so the result has no trailing
  \<open>/\<close> (unless it is exactly \<open>/\<close>), and normalizing again changes nothing, exactly
  for the paths that do not end in \<open>//\<close>, and for the path \<open>//\<close> itself.
\<close>

theorem normalizePath_idempotent_unless_double_slash:
  "startsWith (normalizePath p) ''/'' \<and>
   ((normalizePath p = ''/'' \<or> \<not> endsWith (normalizePath p) ''/'') \<longleftrightarrow>
      (\<not> endsWith p ''//'' \<or> p = ''//'')) \<and>
   (normalizePath (normalizePath p) = normalizePath p \<longleftrightarrow>
      (\<not> endsWith p ''//'' \<or> p = ''//''))"
  using normalizePath_startsWith [of p] normalizePath_idem_iff [of p]
    normalizePath_fixed_iff [of p]
  by blast

text \<open>The theorem at the path \<open>users/\<close>, which does not end in \<open>//\<close>.\<close>

theorem normalizePath_idempotent_witness:
  "\<not> endsWith ''users/'' ''//'' \<and>
   normalizePath ''users/'' = ''/users'' \<and>
   \<not> endsWith (normalizePath ''users/'') ''/'' \<and>
   normalizePath (normalizePath ''users/'') = normalizePath ''users/''"
proof -
  have h: "\<not> endsWith ''users/'' ''//''" by code_simp
  have v: "normalizePath ''users/'' = ''/users''" by code_simp
  have n: "normalizePath ''users/'' \<noteq> ''/''" by code_simp
  show ?thesis
    using h v n normalizePath_idempotent_unless_double_slash [of "''users/''"] by blast
qed

text \<open>
  Claim C2 as stated fails at the path \<open>a//\<close>: its normal form \<open>/a/\<close> still ends in
  \<open>/\<close>, and normalizing it again gives \<open>/a\<close>.
\<close>

theorem normalizePath_not_idempotent:
  "normalizePath ''a//'' = ''/a/'' \<and>
   endsWith (normalizePath ''a//'') ''/'' \<and>
   normalizePath (normalizePath ''a//'') = ''/a'' \<and>
   normalizePath (normalizePath ''a//'') \<noteq> normalizePath ''a//''"
  by code_simp

section \<open>Registration\<close>

text \<open>
  Claim C3. When the key of the method and the normalized path is already in the route
  table, \<open>add\<close> throws its "already exists" error and the router after the call is the
  router before it: every route, with its handler, parameter list and matcher, is as
  it was.
\<close>

theorem add_duplicate_rejected:
  "has (routes r) (toUpperCase method @ '':'' @ normalizePath path) \<Longrightarrow>
     add r method path h2 = (Some (RouteExists method path), r)"
  by (simp add: add_def Let_def)

lemma add_users_id:
  "add newRouter ''GET'' ''/users/:id'' h =
     (None,
      \<lparr>routes =
         [(''GET:/users/:id'',
           \<lparr>handler = h, params = [''id''],
            regex = [TChar CHR ''/'', TChar CHR ''u'', TChar CHR ''s'', TChar CHR ''e'',
                     TChar CHR ''r'', TChar CHR ''s'', TChar CHR ''/'', TGroup]\<rparr>)],
       middlewares = [], paramHandlers = []\<rparr>)"
proof -
  have 1: "normalizePath ''/users/:id'' = ''/users/:id''" by code_simp
  have 2: "toUpperCase ''GET'' = ''GET''" by code_simp
  have 3: "pathToRegex ''/users/:id'' =
             Some [TChar CHR ''/'', TChar CHR ''u'', TChar CHR ''s'', TChar CHR ''e'',
                   TChar CHR ''r'', TChar CHR ''s'', TChar CHR ''/'', TGroup]"
    by code_simp
  have 4: "extractParams ''/users/:id'' = [''id'']" by code_simp
  show ?thesis by (simp add: add_def 1 2 3 4 newRouter_def has_def)
qed

text \<open>
  The theorem at the router that holds \<open>GET /users/:id\<close> with handler 1: registering
  \<open>get users/:id/\<close> with handler 2 is rejected and the router is unchanged.
\<close>

theorem add_duplicate_rejected_witness:
  "has (routes (snd (add newRouter ''GET'' ''/users/:id'' (1::nat))))
     (toUpperCase ''get'' @ '':'' @ normalizePath ''users/:id/'') \<and>
   add (snd (add newRouter ''GET'' ''/users/:id'' (1::nat))) ''get'' ''users/:id/'' 2 =
     (Some (RouteExists ''get'' ''users/:id/''),
      snd (add newRouter ''GET'' ''/users/:id'' (1::nat)))"
proof -
  have 1: "normalizePath ''users/:id/'' = ''/users/:id''" by code_simp
  have 2: "toUpperCase ''get'' = ''GET''" by code_simp
  have h: "has (routes (snd (add newRouter ''GET'' ''/users/:id'' (1::nat))))
             (toUpperCase ''get'' @ '':'' @ normalizePath ''users/:id/'')"
    by (simp add: add_users_id 1 2 has_def)
  show ?thesis using h add_duplicate_rejected [OF h, of 2] by simp
qed

section \<open>Matching\<close>

lemma upper_GET: "toUpperCase ''GET'' = ''GET''"
  by code_simp

lemma match_users_42:
  "match (snd (add newRouter ''GET'' ''/users/:id'' h)) ''GET'' ''/users/42'' =
     Some \<lparr>m_handler = h, m_params = [(''id'', JStr ''42'')]\<rparr>"
proof -
  have 5: "routeMethod ''GET:/users/:id'' = ''GET''" by code_simp
  have 6: "str_match ''/users/42''
             [TChar CHR ''/'', TChar CHR ''u'', TChar CHR ''s'', TChar CHR ''e'',
              TChar CHR ''r'', TChar CHR ''s'', TChar CHR ''/'', TGroup] =
           Some [''/users/42'', ''42'']"
    by code_simp
  have 7: "objSet [] ''id'' (JStr ''42'') = [(''id'', JStr ''42'')]" by code_simp
  show ?thesis by (simp add: add_users_id match_def upper_GET 5 6 7 arrGet_def)
qed

lemma add_a_x_b_y:
  "add newRouter ''GET'' ''/a/:x/b/:y'' h =
     (None,
      \<lparr>routes =
         [(''GET:/a/:x/b/:y'',
           \<lparr>handler = h, params = [''x'', ''y''],
            regex = [TChar CHR ''/'', TChar CHR ''a'', TChar CHR ''/'', TGroup,
                     TChar CHR ''/'', TChar CHR ''b'', TChar CHR ''/'', TGroup]\<rparr>)],
       middlewares = [], paramHandlers = []\<rparr>)"
proof -
  have 1: "normalizePath ''/a/:x/b/:y'' = ''/a/:x/b/:y''" by code_simp
  have 3: "pathToRegex ''/a/:x/b/:y'' =
             Some [TChar CHR ''/'', TChar CHR ''a'', TChar CHR ''/'', TGroup,
                   TChar CHR ''/'', TChar CHR ''b'', TChar CHR ''/'', TGroup]"
    by code_simp
  have 4: "extractParams ''/a/:x/b/:y'' = [''x'', ''y'']" by code_simp
  show ?thesis by (simp add: add_def 1 upper_GET 3 4 newRouter_def has_def)
qed

lemma str_match_a_1_b_2:
  "str_match ''/a/1/b/2''
     [TChar CHR ''/'', TChar CHR ''a'', TChar CHR ''/'', TGroup,
      TChar CHR ''/'', TChar CHR ''b'', TChar CHR ''/'', TGroup] =
   Some [''/a/1/b/2'', ''1'', ''2'']"
  by code_simp

lemma match_a_1_b_2:
  "match (snd (add newRouter ''GET'' ''/a/:x/b/:y'' h)) ''GET'' ''/a/1/b/2'' =
     Some \<lparr>m_handler = h, m_params = [(''x'', JStr ''1''), (''y'', JStr ''2'')]\<rparr>"
proof -
  have 5: "routeMethod ''GET:/a/:x/b/:y'' = ''GET''" by code_simp
  have 7: "objSet [] ''x'' (JStr ''1'') = [(''x'', JStr ''1'')]"
    "objSet [(''x'', JStr ''1'')] ''y'' (JStr ''2'') = [(''x'', JStr ''1''), (''y'', JStr ''2'')]"
    by code_simp+
  show ?thesis
    by (simp add: add_a_x_b_y match_def upper_GET 5 str_match_a_1_b_2 7 arrGet_def)
qed

text \<open>
  Claim C4. In the router whose only route is \<open>GET /users/:id\<close>, matching
  \<open>GET /users/42\<close> gives the route's handler and the parameters \<open>{id: "42"}\<close>. The
  route registered for \<open>/a/:x/b/:y\<close> has the parameter names \<open>[x, y]\<close>, its matcher
  captures \<open>["1", "2"]\<close> from \<open>/a/1/b/2\<close> (after the whole match), and \<open>match\<close> binds
  \<open>x\<close> to \<open>"1"\<close> and \<open>y\<close> to \<open>"2"\<close>.
\<close>

theorem match_binds_positionally:
  "match (snd (add newRouter ''GET'' ''/users/:id'' h)) ''GET'' ''/users/42'' =
     Some \<lparr>m_handler = h, m_params = [(''id'', JStr ''42'')]\<rparr> \<and>
   map_option params
      (map_of (routes (snd (add newRouter ''GET'' ''/a/:x/b/:y'' h))) ''GET:/a/:x/b/:y'') =
     Some [''x'', ''y''] \<and>
   map_option (\<lambda>route. str_match ''/a/1/b/2'' (regex route))
      (map_of (routes (snd (add newRouter ''GET'' ''/a/:x/b/:y'' h))) ''GET:/a/:x/b/:y'') =
     Some (Some [''/a/1/b/2'', ''1'', ''2'']) \<and>
   match (snd (add newRouter ''GET'' ''/a/:x/b/:y'' h)) ''GET'' ''/a/1/b/2'' =
     Some \<lparr>m_handler = h, m_params = [(''x'', JStr ''1''), (''y'', JStr ''2'')]\<rparr>"
proof -
  have b: "map_option params
      (map_of (routes (snd (add newRouter ''GET'' ''/a/:x/b/:y'' h))) ''GET:/a/:x/b/:y'') =
     Some [''x'', ''y'']"
    by (simp add: add_a_x_b_y)
  have c: "map_option (\<lambda>route. str_match ''/a/1/b/2'' (regex route))
      (map_of (routes (snd (add newRouter ''GET'' ''/a/:x/b/:y'' h))) ''GET:/a/:x/b/:y'') =
     Some (Some [''/a/1/b/2'', ''1'', ''2''])"
    by (simp add: add_a_x_b_y str_match_a_1_b_2)
  show ?thesis
    using match_users_42 [of h] b c match_a_1_b_2 [of h] by blast
qed

lemma scan_first_accepting:
  "scan mu p rs =
     Option.bind (find (accepts mu p) rs)
       (\<lambda>entry.
          map_option
            (\<lambda>m. \<lparr>m_handler = handler (snd entry),
                   m_params = bindParams (params (snd entry)) 0 m []\<rparr>)
            (str_match p (regex (snd entry))))"
  by (induction rs) (auto simp: accepts_def rxTest_def str_match_def split: option.splits)

lemma match_users_id_exact:
  "match (snd (add newRouter ''GET'' ''/users/:id'' h)) ''GET'' ''/users/:id'' =
     Some \<lparr>m_handler = h, m_params = []\<rparr>"
  by (simp add: add_users_id match_def upper_GET)

lemma add_wild_users:
  "snd (add (snd (add newRouter ''GET'' ''/*'' h1)) ''GET'' ''/users'' h2) =
      \<lparr>routes =
         [(''GET:/*'', \<lparr>handler = h1, params = [], regex = [TChar CHR ''/'', TDotStar]\<rparr>),
          (''GET:/users'',
           \<lparr>handler = h2, params = [],
            regex = [TChar CHR ''/'', TChar CHR ''u'', TChar CHR ''s'', TChar CHR ''e'',
                     TChar CHR ''r'', TChar CHR ''s'']\<rparr>)],
       middlewares = [], paramHandlers = []\<rparr>"
proof -
  have 1: "normalizePath ''/*'' = ''/*''" "normalizePath ''/users'' = ''/users''"
    by code_simp+
  have 3: "pathToRegex ''/*'' = Some [TChar CHR ''/'', TDotStar]"
    "pathToRegex ''/users'' =
       Some [TChar CHR ''/'', TChar CHR ''u'', TChar CHR ''s'', TChar CHR ''e'',
             TChar CHR ''r'', TChar CHR ''s'']"
    by code_simp+
  have 4: "extractParams ''/*'' = []" "extractParams ''/users'' = []" by code_simp+
  show ?thesis by (simp add: add_def 1 upper_GET 3 4 newRouter_def has_def)
qed

lemma add_wild_users_id:
  "snd (add (snd (add newRouter ''GET'' ''/*'' h1)) ''GET'' ''/users/:id'' h2) =
      \<lparr>routes =
         [(''GET:/*'', \<lparr>handler = h1, params = [], regex = [TChar CHR ''/'', TDotStar]\<rparr>),
          (''GET:/users/:id'',
           \<lparr>handler = h2, params = [''id''],
            regex = [TChar CHR ''/'', TChar CHR ''u'', TChar CHR ''s'', TChar CHR ''e'',
                     TChar CHR ''r'', TChar CHR ''s'', TChar CHR ''/'', TGroup]\<rparr>)],
       middlewares = [], paramHandlers = []\<rparr>"
proof -
  have 1: "normalizePath ''/*'' = ''/*''" "normalizePath ''/users/:id'' = ''/users/:id''"
    by code_simp+
  have 3: "pathToRegex ''/*'' = Some [TChar CHR ''/'', TDotStar]"
    "pathToRegex ''/users/:id'' =
       Some [TChar CHR ''/'', TChar CHR ''u'', TChar CHR ''s'', TChar CHR ''e'',
             TChar CHR ''r'', TChar CHR ''s'', TChar CHR ''/'', TGroup]"
    by code_simp+
  have 4: "extractParams ''/*'' = []" "extractParams ''/users/:id'' = [''id'']"
    by code_simp+
  show ?thesis by (simp add: add_def 1 upper_GET 3 4 newRouter_def has_def)
qed

lemma match_wild_users_exact:
  "match (snd (add (snd (add newRouter ''GET'' ''/*'' h1)) ''GET'' ''/users'' h2))
     ''GET'' ''/users'' = Some \<lparr>m_handler = h2, m_params = []\<rparr>"
  by (simp add: add_wild_users match_def upper_GET)

lemma match_wild_users_id_scan:
  "match (snd (add (snd (add newRouter ''GET'' ''/*'' h1)) ''GET'' ''/users/:id'' h2))
     ''GET'' ''/users/42'' = Some \<lparr>m_handler = h1, m_params = []\<rparr>"
proof -
  have 5: "routeMethod ''GET:/*'' = ''GET''" by code_simp
  have 6: "str_match ''/users/42'' [TChar CHR ''/'', TDotStar] = Some [''/users/42'']"
    by code_simp
  show ?thesis by (simp add: add_wild_users_id match_def upper_GET 5 6)
qed

text \<open>
  Claim C1, as the code has it. \<open>match\<close> looks the key \<open>METHOD:path\<close> up first: when
  it is a key of the table, the result is the handler of that route with an empty
  parameter mapping, wherever the route stands in the registration order and
  whatever parameters it declares. Only when it is not a key does registration order
  decide: the result is taken from the first route, in registration order, whose
  method is the request's and whose matcher accepts the path, with the parameters
  bound from its captures; there is no result when no route accepts. So with
  \<open>GET /*\<close> registered before \<open>GET /users\<close>, \<open>GET /users\<close> is answered by the
  \<open>/users\<close> route; the route \<open>GET /users/:id\<close> requested as \<open>/users/:id\<close> is found
  by its key and binds nothing; with \<open>GET /*\<close> registered before
  \<open>GET /users/:id\<close>, \<open>GET /users/42\<close> is answered by the \<open>/*\<close> route.
\<close>

theorem match_exact_key_then_registration_order:
  "match r method urlPath =
     (case map_of (routes r) (toUpperCase method @ '':'' @ urlPath) of
        Some route \<Rightarrow> Some \<lparr>m_handler = handler route, m_params = []\<rparr>
      | None \<Rightarrow>
          Option.bind (find (accepts (toUpperCase method) urlPath) (routes r))
            (\<lambda>entry.
               map_option
                 (\<lambda>m. \<lparr>m_handler = handler (snd entry),
                        m_params = bindParams (params (snd entry)) 0 m []\<rparr>)
                 (str_match urlPath (regex (snd entry))))) \<and>
   match (snd (add (snd (add newRouter ''GET'' ''/*'' h1)) ''GET'' ''/users'' h2))
     ''GET'' ''/users'' = Some \<lparr>m_handler = h2, m_params = []\<rparr> \<and>
   match (snd (add newRouter ''GET'' ''/users/:id'' h1)) ''GET'' ''/users/:id'' =
     Some \<lparr>m_handler = h1, m_params = []\<rparr> \<and>
   match (snd (add (snd (add newRouter ''GET'' ''/*'' h1)) ''GET'' ''/users/:id'' h2))
     ''GET'' ''/users/42'' = Some \<lparr>m_handler = h1, m_params = []\<rparr>"
proof -
  have g: "match r method urlPath =
     (case map_of (routes r) (toUpperCase method @ '':'' @ urlPath) of
        Some route \<Rightarrow> Some \<lparr>m_handler = handler route, m_params = []\<rparr>
      | None \<Rightarrow>
          Option.bind (find (accepts (toUpperCase method) urlPath) (routes r))
            (\<lambda>entry.
               map_option
                 (\<lambda>m. \<lparr>m_handler = handler (snd entry),
                        m_params = bindParams (params (snd entry)) 0 m []\<rparr>)
                 (str_match urlPath (regex (snd entry)))))"
    by (simp add: match_def Let_def scan_first_accepting split: option.splits)
  show ?thesis
    using g match_wild_users_exact [of h1 h2] match_users_id_exact [of h1]
      match_wild_users_id_scan [of h1 h2]
    by blast
qed

text \<open>
  Claim C1 as stated fails: with \<open>GET /*\<close> registered first (handler 1) and
  \<open>GET /users\<close> second (handler 2), \<open>match("GET", "/users")\<close> returns handler 2, the
  route found by the exact key, not the handler of the first-registered route.
\<close>

theorem match_exact_key_beats_earlier_wildcard:
  "match (snd (add (snd (add newRouter ''GET'' ''/*'' (1::nat))) ''GET'' ''/users'' 2))
     ''GET'' ''/users'' = Some \<lparr>m_handler = 2, m_params = []\<rparr> \<and>
   map_option m_handler
     (match (snd (add (snd (add newRouter ''GET'' ''/*'' (1::nat))) ''GET'' ''/users'' 2))
        ''GET'' ''/users'') \<noteq> Some 1"
  by (simp add: add_wild_users match_def upper_GET)

section \<open>Dispatch: middleware\<close>

lemma runMiddlewares_append:
  "runMiddlewares env p pre w = (Next, w1, evs1) \<Longrightarrow>
     runMiddlewares env p (pre @ rest) w =
       (case runMiddlewares env p rest w1 of (e, w2, evs2) \<Rightarrow> (e, w2, evs1 @ evs2))"
proof (induction pre arbitrary: w w1 evs1)
  case Nil
  then show ?case by (simp split: prod.splits)
next
  case (Cons mw pre)
  then show ?case
    by (auto simp: Let_def split: option.splits prod.splits sum.splits if_splits)
qed

lemma runMiddlewares_events:
  "runMiddlewares env p mws w = (e, w', evs) \<Longrightarrow>
     \<forall>ev \<in> set evs. \<exists>h. ev = Call Middleware h []"
proof (induction mws arbitrary: w e w' evs)
  case Nil
  then show ?case by simp
next
  case (Cons mw mws)
  then show ?case
    by (fastforce simp: Let_def split: option.splits prod.splits sum.splits if_splits)
qed

lemma match_middlewares_update: "match (r\<lparr>middlewares := ms\<rparr>) m p = match r m p"
  by (simp add: match_def Let_def split: option.splits)

text \<open>
  Claim C5. Take the middleware list as the entries before \<open>mw\<close>, then \<open>mw\<close>, then the
  later entries; the entries before \<open>mw\<close> have run without stopping the pipeline,
  the pattern of \<open>mw\<close> accepts the request path, and the call of its handler gives
  the value \<open>v\<close>. If \<open>v\<close> is exactly \<open>false\<close>, \<open>handle\<close> returns at once: what the
  dispatch did is what the earlier middleware did followed by the call of \<open>mw\<close>, all
  of it middleware calls, so no later middleware, no param hook and no route handler
  runs and no 404 response is written. If \<open>v\<close> is anything else, the dispatch goes on
  after the call exactly as a dispatch with the later middleware only would.
\<close>

theorem middleware_false_stops_dispatch:
  assumes ms: "middlewares r = pre @ mw # later"
    and pre: "runMiddlewares env (req_pathname req) pre w = (Next, w1, evs1)"
    and rx: "pathToRegex (normalizePath (mw_path mw)) = Some rx"
    and acc: "rxTest rx (req_pathname req)"
    and call: "callMiddleware env (mw_handler mw) w1 = (Inr v, w2)"
  shows "(v = JBool False \<longrightarrow>
            handle env r req w = (Resolved, w2, evs1 @ [Call Middleware (mw_handler mw) []]) \<and>
            (\<forall>ev \<in> set (evs1 @ [Call Middleware (mw_handler mw) []]).
               \<exists>h. ev = Call Middleware h [])) \<and>
         (v \<noteq> JBool False \<longrightarrow>
            handle env r req w =
              (case handle env (r\<lparr>middlewares := later\<rparr>) req w2 of
                 (c, w3, evs3) \<Rightarrow> (c, w3, evs1 @ Call Middleware (mw_handler mw) [] # evs3)))"
proof (intro conjI impI)
  assume v: "v = JBool False"
  have "runMiddlewares env (req_pathname req) (mw # later) w1 =
          (Return, w2, [Call Middleware (mw_handler mw) []])"
    using rx acc call v by (simp add: Let_def)
  then have "runMiddlewares env (req_pathname req) (middlewares r) w =
          (Return, w2, evs1 @ [Call Middleware (mw_handler mw) []])"
    unfolding ms using runMiddlewares_append [OF pre, of "mw # later"] by simp
  then show "handle env r req w = (Resolved, w2, evs1 @ [Call Middleware (mw_handler mw) []])"
    by (simp add: handle_def Let_def)
  show "\<forall>ev \<in> set (evs1 @ [Call Middleware (mw_handler mw) []]). \<exists>h. ev = Call Middleware h []"
    using runMiddlewares_events [OF pre] by auto
next
  assume v: "v \<noteq> JBool False"
  obtain e w3 evs3 where later: "runMiddlewares env (req_pathname req) later w2 = (e, w3, evs3)"
    by (metis prod_cases3)
  have "runMiddlewares env (req_pathname req) (mw # later) w1 =
          (e, w3, Call Middleware (mw_handler mw) [] # evs3)"
    using rx acc call v later by (simp add: Let_def)
  then have all: "runMiddlewares env (req_pathname req) (middlewares r) w =
          (e, w3, evs1 @ Call Middleware (mw_handler mw) [] # evs3)"
    unfolding ms using runMiddlewares_append [OF pre, of "mw # later"] by simp
  show "handle env r req w =
              (case handle env (r\<lparr>middlewares := later\<rparr>) req w2 of
                 (c, w3, evs3) \<Rightarrow> (c, w3, evs1 @ Call Middleware (mw_handler mw) [] # evs3))"
    using all later
    by (cases e) (simp_all add: handle_def Let_def match_middlewares_update
      split: option.splits prod.splits sum.splits)
qed

text \<open>
  The theorem at \<open>guardedRouter\<close> and \<open>GET /users/42\<close>: middleware 0 returns
  \<open>false\<close>, so neither middleware 4, nor the hook for \<open>id\<close>, nor the route handler
  runs; and middleware 3, which returns \<open>undefined\<close>, lets the dispatch go on.
\<close>

theorem middleware_false_stops_dispatch_witness:
  "middlewares guardedRouter =
     [\<lparr>mw_path = ''/*'', mw_handler = 3\<rparr>] @ \<lparr>mw_path = ''/*'', mw_handler = 0\<rparr> #
     [\<lparr>mw_path = ''/*'', mw_handler = 4\<rparr>] \<and>
   callMiddleware demoEnv 0 [3] = (Inr (JBool False), [3, 0]) \<and>
   handle demoEnv guardedRouter \<lparr>req_method = ''GET'', req_pathname = ''/users/42''\<rparr> [] =
     (Resolved, [3, 0], [Call Middleware 3 [], Call Middleware 0 []]) \<and>
   callMiddleware demoEnv 3 [] = (Inr JUndefined, [3]) \<and>
   handle demoEnv guardedRouter \<lparr>req_method = ''GET'', req_pathname = ''/users/42''\<rparr> [] =
     (case handle demoEnv
             (guardedRouter\<lparr>middlewares :=
                [\<lparr>mw_path = ''/*'', mw_handler = 0\<rparr>, \<lparr>mw_path = ''/*'', mw_handler = 4\<rparr>]\<rparr>)
             \<lparr>req_method = ''GET'', req_pathname = ''/users/42''\<rparr> [3] of
        (c, w3, evs3) \<Rightarrow> (c, w3, [] @ Call Middleware 3 [] # evs3))"
proof -
  let ?req = "\<lparr>req_method = ''GET'', req_pathname = ''/users/42''\<rparr>"
  let ?m3 = "\<lparr>mw_path = ''/*'', mw_handler = 3::nat\<rparr>"
  let ?m0 = "\<lparr>mw_path = ''/*'', mw_handler = 0::nat\<rparr>"
  let ?m4 = "\<lparr>mw_path = ''/*'', mw_handler = 4::nat\<rparr>"
  have ms: "middlewares guardedRouter = [?m3] @ ?m0 # [?m4]" by code_simp
  have ms': "middlewares guardedRouter = [] @ ?m3 # [?m0, ?m4]" by code_simp
  have pre: "runMiddlewares demoEnv (req_pathname ?req) [?m3] [] =
               (Next, [3], [Call Middleware 3 []])"
    by code_simp
  have pre': "runMiddlewares demoEnv (req_pathname ?req) [] [] = (Next, [], [])"
    by simp
  have rx: "pathToRegex (normalizePath (mw_path ?m0)) = Some [TChar CHR ''/'', TDotStar]"
    by code_simp
  have rx': "pathToRegex (normalizePath (mw_path ?m3)) = Some [TChar CHR ''/'', TDotStar]"
    by code_simp
  have acc: "rxTest [TChar CHR ''/'', TDotStar] (req_pathname ?req)" by code_simp
  have call: "callMiddleware demoEnv (mw_handler ?m0) [3] = (Inr (JBool False), [3, 0])"
    by code_simp
  have call': "callMiddleware demoEnv (mw_handler ?m3) [] = (Inr JUndefined, [3])"
    by code_simp
  show ?thesis
    using middleware_false_stops_dispatch [OF ms pre rx acc call] middleware_false_stops_dispatch [OF ms' pre' rx' acc call'] call call' ms
    by simp
qed

section \<open>Dispatch: the not-found response\<close>

lemma jsonEscape_plain: "plainChar c \<Longrightarrow> jsonEscape c = [c]"
  by (auto simp: jsonEscape_def plainChar_def Let_def)

lemma concat_jsonEscape_plain:
  "\<forall>c \<in> set s. plainChar c \<Longrightarrow> concat (map jsonEscape s) = s"
  by (induction s) (simp_all add: jsonEscape_plain)

lemma jsonQuote_withQuotes: "jsonQuote s = withQuotes (concat (map jsonEscape s))"
  by (simp add: jsonQuote_def withQuotes_def)

lemma notFoundBody_eq: "notFoundBody p = specNotFoundBody (concat (map jsonEscape p))"
  unfolding notFoundBody_def JSON_stringify_def jsonQuote_withQuotes specNotFoundBody_def
  by (simp add: jsonEscape_plain plainChar_def dquote_def bslash_def)

lemma specNotFoundBody_nope:
  "specNotFoundBody ''/nope'' =
     [CHR ''{'', CHR 0x22, CHR ''e'', CHR ''r'', CHR ''r'', CHR ''o'',
   CHR ''r'', CHR 0x22, CHR '':'', CHR 0x22, CHR ''N'', CHR ''o'',
   CHR ''t'', CHR '' '', CHR ''F'', CHR ''o'', CHR ''u'', CHR ''n'',
   CHR ''d'', CHR 0x22, CHR '','', CHR 0x22, CHR ''m'', CHR ''e'',
   CHR ''s'', CHR ''s'', CHR ''a'', CHR ''g'', CHR ''e'', CHR 0x22,
   CHR '':'', CHR 0x22, CHR ''R'', CHR ''o'', CHR ''u'', CHR ''t'',
   CHR ''e'', CHR '' '', CHR ''/'', CHR ''n'', CHR ''o'', CHR ''p'',
   CHR ''e'', CHR '' '', CHR ''n'', CHR ''o'', CHR ''t'', CHR '' '',
   CHR ''f'', CHR ''o'', CHR ''u'', CHR ''n'', CHR ''d'', CHR 0x22,
   CHR ''}'']"
  by code_simp

text \<open>
  Claim C6. When the middleware loop runs to its end and no route matches, \<open>handle\<close>
  writes status 404 with the header \<open>Content-Type: application/json\<close> and ends the
  response with the JSON text \<open>{"error":"Not Found","message":"Route <path> not
  found"}\<close>: the fields \<open>error\<close> and \<open>message\<close> in this order, without spaces, the
  message being the JSON string for \<open>Route <path> not found\<close>, in which each \<open>"\<close>,
  backslash and control character of the path is written escaped, as JSON requires.
  For a path without such characters, as \<open>/nope\<close>, the body is that text with the
  path put in as it is.
\<close>

theorem not_found_response:
  assumes mws: "runMiddlewares env (req_pathname req) (middlewares r) w = (Next, w1, evs)"
    and nomatch: "match r (req_method req) (req_pathname req) = None"
  shows "handle env r req w =
           (Resolved, w1,
            evs @ [WriteHead 404 [(''Content-Type'', ''application/json'')],
                   End (specNotFoundBody (concat (map jsonEscape (req_pathname req))))]) \<and>
         ((\<forall>c \<in> set (req_pathname req). plainChar c) \<longrightarrow>
            handle env r req w =
              (Resolved, w1,
               evs @ [WriteHead 404 [(''Content-Type'', ''application/json'')],
                      End (specNotFoundBody (req_pathname req))]))"
  using mws nomatch
  by (simp add: handle_def Let_def notFoundBody_eq concat_jsonEscape_plain)

text \<open>
  The theorem at \<open>openRouter\<close> and \<open>GET /nope\<close>: the body is
  \<open>{"error":"Not Found","message":"Route /nope not found"}\<close>.
\<close>

theorem not_found_response_witness:
  "runMiddlewares demoEnv ''/nope'' (middlewares openRouter) [] =
     (Next, [3], [Call Middleware 3 []]) \<and>
   match openRouter ''GET'' ''/nope'' = None \<and>
   list_all plainChar ''/nope'' \<and>
   handle demoEnv openRouter \<lparr>req_method = ''GET'', req_pathname = ''/nope''\<rparr> [] =
     (Resolved, [3],
      [Call Middleware 3 [],
       WriteHead 404 [(''Content-Type'', ''application/json'')],
       End (specNotFoundBody ''/nope'')])"
proof -
  let ?req = "\<lparr>req_method = ''GET'', req_pathname = ''/nope''\<rparr>"
  have mws: "runMiddlewares demoEnv (req_pathname ?req) (middlewares openRouter) [] =
               (Next, [3], [Call Middleware 3 []])"
    by code_simp
  have nomatch: "match openRouter (req_method ?req) (req_pathname ?req) = None"
    by code_simp
  have plain: "\<forall>c \<in> set (req_pathname ?req). plainChar c"
    by code_simp
  have "handle demoEnv openRouter ?req [] =
          (Resolved, [3],
           [Call Middleware 3 []] @
           [WriteHead 404 [(''Content-Type'', ''application/json'')],
            End (specNotFoundBody (req_pathname ?req))])"
    using not_found_response [OF mws nomatch] plain by blast
  then show ?thesis
    using mws nomatch plain by (simp add: list_all_iff)
qed

text \<open>
  At the path \<open>/a"b\<close> the body carries the JSON string \<open>"Route /a\"b not found"\<close>,
  with the quote of the path escaped.
\<close>

lemma notFoundBody_escapes_quote:
  "snd (snd (handle demoEnv newRouter \<lparr>req_method = ''GET'', req_pathname = ''/a'' @ [dquote] @ ''b''\<rparr> [])) =
     [WriteHead 404 [(''Content-Type'', ''application/json'')],
      End (specNotFoundBody (''/a'' @ [bslash, dquote] @ ''b''))] \<and>
   snd (snd (handle demoEnv newRouter \<lparr>req_method = ''GET'', req_pathname = ''/a'' @ [dquote] @ ''b''\<rparr> [])) \<noteq>
     [WriteHead 404 [(''Content-Type'', ''application/json'')],
      End (specNotFoundBody (''/a'' @ [dquote] @ ''b''))]"
  by code_simp

section \<open>Dispatch: the request path is used as it is\<close>

text \<open>
  Claim C8 fails on the code. \<open>add\<close> normalizes the path of every route, and the
  middleware loop normalizes the pattern of every middleware, but \<open>handle\<close> passes
  the pathname of the request to the middleware test and to \<open>match\<close> as it is. The
  route registered as \<open>GET /users/\<close> (handler 5) is stored under the key
  \<open>GET:/users\<close>; the request \<open>GET /users/\<close>, whose path differs from the route's
  normalized path only in normalization, gets the 404 response, while the request
  for the normalized path \<open>/users\<close> runs the handler. In the same way the
  middleware 3 registered for \<open>/users/\<close> runs for the request \<open>/users\<close> and not
  for the request \<open>/users/\<close>.
\<close>

theorem request_path_not_normalized:
  "map fst (routes (snd (add newRouter ''GET'' ''/users/'' (5::nat)))) = [''GET:/users''] \<and>
   normalizePath ''/users/'' = ''/users'' \<and>
   handle demoEnv (snd (add newRouter ''GET'' ''/users/'' 5))
      \<lparr>req_method = ''GET'', req_pathname = ''/users/''\<rparr> [] =
     (Resolved, [],
      [WriteHead 404 [(''Content-Type'', ''application/json'')],
       End (specNotFoundBody ''/users/'')]) \<and>
   handle demoEnv (snd (add newRouter ''GET'' ''/users/'' 5))
      \<lparr>req_method = ''GET'', req_pathname = normalizePath ''/users/''\<rparr> [] =
     (Resolved, [5], [Call RouteHandler 5 []]) \<and>
   handle demoEnv (use (snd (add newRouter ''GET'' ''/users/'' 5)) (Path ''/users/'') [3])
      \<lparr>req_method = ''GET'', req_pathname = ''/users/''\<rparr> [] =
     (Resolved, [],
      [WriteHead 404 [(''Content-Type'', ''application/json'')],
       End (specNotFoundBody ''/users/'')]) \<and>
   handle demoEnv (use (snd (add newRouter ''GET'' ''/users/'' 5)) (Path ''/users/'') [3])
      \<lparr>req_method = ''GET'', req_pathname = normalizePath ''/users/''\<rparr> [] =
     (Resolved, [3, 5], [Call Middleware 3 [], Call RouteHandler 5 []])"
  by code_simp

section \<open>Parameter names and captured values\<close>

text \<open>
  What holds of every match of a pattern of the modelled fragment, where the only
  group is \<open>([^/]+)\<close>: there is one captured substring for each group, and each
  captured substring is non-empty and has no \<open>/\<close>. So, for routes whose patterns
  are in the fragment, every value that the pattern scan of \<open>match\<close> binds is such a
  substring, or \<open>undefined\<close> where the route declares more names than its matcher
  has groups. (A path that writes a group of its own, as \<open>/(.*)\<close>, is outside the
  fragment, and nothing is said here about its captures.)
\<close>

lemma greedySplits_sound:
  "(a, b) \<in> set (greedySplits P s) \<Longrightarrow> s = a @ b \<and> (\<forall>c \<in> set a. P c)"
  by (induction s arbitrary: a b) (auto split: if_splits)

lemma firstSome_Some:
  "firstSome f xs = Some y \<Longrightarrow> \<exists>x \<in> set xs. f x = Some y"
  by (induction xs) (auto split: option.splits)

lemma rxExec_captures:
  "rxExec ts s = Some caps \<Longrightarrow>
     length caps = groupCount ts \<and> (\<forall>c \<in> set caps. c \<noteq> [] \<and> CHR ''/'' \<notin> set c)"
proof (induction ts s arbitrary: caps rule: rxExec.induct)
  case (1 s)
  then show ?case by (simp add: groupCount_def split: if_splits)
next
  case (2 c ts s)
  then show ?case by (auto simp: groupCount_def split: list.splits if_splits)
next
  case (3 ts s)
  then show ?case by (auto simp: groupCount_def split: list.splits if_splits)
next
  case (4 ts s)
  from "4.prems" obtain a b where
    ab: "(a, b) \<in> set (greedySplits (\<lambda>c. \<not> isLineTerminator c) s)" and
    r: "rxExec ts b = Some caps"
    by (auto dest!: firstSome_Some)
  from "4.IH" [OF r] show ?case by (simp add: groupCount_def)
next
  case (5 ts s)
  from "5.prems" obtain a b caps' where
    ab: "(a, b) \<in> set (greedySplits (\<lambda>c. c \<noteq> CHR ''/'') s)" and ne: "a \<noteq> []" and
    r: "rxExec ts b = Some caps'" and caps: "caps = a # caps'"
    by (auto dest!: firstSome_Some)
  have "\<forall>c \<in> set a. c \<noteq> CHR ''/''" using greedySplits_sound [OF ab] by simp
  with "5.IH" [OF r] ab ne caps show ?case by (auto simp: groupCount_def)
qed


lemma setKey_values:
  "P v \<Longrightarrow> \<forall>x \<in> set kvs. P (snd x) \<Longrightarrow> \<forall>x \<in> set (setKey k v kvs). P (snd x)"
  by (induction kvs) (fastforce split: if_splits)+

lemma insertIndexed_values:
  "P v \<Longrightarrow> \<forall>x \<in> set kvs. P (snd x) \<Longrightarrow> \<forall>x \<in> set (insertIndexed k v kvs). P (snd x)"
  by (induction kvs) (fastforce split: if_splits)+

lemma objSet_values:
  "P v \<Longrightarrow> \<forall>x \<in> set kvs. P (snd x) \<Longrightarrow> \<forall>x \<in> set (objSet kvs k v). P (snd x)"
  using setKey_values [of P v kvs k] insertIndexed_values [of P v kvs k]
  by (simp add: objSet_def)

lemma arrGet_segment:
  "\<forall>c \<in> set caps. c \<noteq> [] \<and> CHR ''/'' \<notin> set c \<Longrightarrow>
     segmentOrUndefined (arrGet (whole # caps) (i + 1))"
  by (simp add: arrGet_def segmentOrUndefined_def)

lemma bindParams_values:
  "\<forall>c \<in> set caps. c \<noteq> [] \<and> CHR ''/'' \<notin> set c \<Longrightarrow>
   \<forall>x \<in> set ps. segmentOrUndefined (snd x) \<Longrightarrow>
   \<forall>x \<in> set (bindParams names i (whole # caps) ps). segmentOrUndefined (snd x)"
proof (induction names arbitrary: i ps)
  case Nil
  then show ?case by simp
next
  case (Cons name names)
  have "\<forall>x \<in> set (objSet ps name (arrGet (whole # caps) (i + 1))). segmentOrUndefined (snd x)"
    using Cons.prems(2) arrGet_segment [OF Cons.prems(1), of whole i]
    by (rule objSet_values [rotated])
  from Cons.IH [OF Cons.prems(1) this] show ?case by simp
qed

lemma scan_values:
  "scan mu p rs = Some m \<Longrightarrow> \<forall>x \<in> set (m_params m). segmentOrUndefined (snd x)"
proof (induction rs)
  case Nil
  then show ?case by simp
next
  case (Cons entry rs)
  obtain key route where e: "entry = (key, route)" by (cases entry)
  show ?case
  proof (cases "routeMethod key = mu \<and> rxExec (regex route) p \<noteq> None")
    case True
    then obtain caps where c: "rxExec (regex route) p = Some caps" by auto
    have m: "m_params m = bindParams (params route) 0 (p # caps) []"
      using Cons.prems True c by (auto simp: e str_match_def)
    show ?thesis
      unfolding m using bindParams_values [of caps "[]" "params route" 0 p] rxExec_captures [OF c]
      by simp
  next
    case False
    then have "scan mu p rs = Some m"
      using Cons.prems by (auto simp: e str_match_def split: if_splits option.splits)
    then show ?thesis by (rule Cons.IH)
  qed
qed

text \<open>
  Claim C9 fails on the code. \<open>extractParams\<close> takes a name from every segment that
  starts with \<open>:\<close>, while \<open>pathToRegex\<close> makes a group only where \<open>/:\<close> is followed
  by a word character. \<open>add\<close> accepts the path \<open>/:@user/:id\<close>; the route has the two
  names \<open>@user\<close> and \<open>id\<close> and a matcher with one group, and matching
  \<open>/:@user/42\<close> binds \<open>@user\<close> to \<open>"42"\<close> and \<open>id\<close> to \<open>undefined\<close>. For an empty
  name, the path \<open>/:\<close> has one name and a matcher without a group.
\<close>

theorem params_and_groups_disagree:
  "fst (add newRouter ''GET'' ''/:@user/:id'' (5::nat)) = None \<and>
   map (\<lambda>entry. (fst entry, params (snd entry), groupCount (regex (snd entry))))
     (routes (snd (add newRouter ''GET'' ''/:@user/:id'' (5::nat)))) =
     [(''GET:/:@user/:id'', [''@user'', ''id''], 1)] \<and>
   map_option m_params
     (match (snd (add newRouter ''GET'' ''/:@user/:id'' (5::nat))) ''GET'' ''/:@user/42'') =
     Some [(''@user'', JStr ''42''), (''id'', JUndefined)] \<and>
   extractParams (normalizePath ''/:'') = [''''] \<and>
   map_option groupCount (pathToRegex (normalizePath ''/:'')) = Some 0"
  by code_simp


section \<open>Dispatch: param hooks\<close>

text \<open>
  What holds of the hooks: when no middleware stops the pipeline, a route matches, and
  the handlers called after the match neither throw nor change the parameter object,
  the dispatch calls, after all the middleware, one hook for each entry of the hook
  table whose name reads as a truthy value in the parameter object, in the order of
  the table, with that value and the name, and then the route handler.
\<close>

lemma runParamHandlers_order:
  assumes quiet: "\<And>h args ps w. \<exists>v w'. callMatched env h args (ps, w) = (Inr v, (ps, w'))"
  shows "\<exists>w'. runParamHandlers env hooks (ps, w) =
           (None, (ps, w'),
            map (\<lambda>entry. Call ParamHook (snd entry) [objGet ps (fst entry), JStr (fst entry)])
              (filter (\<lambda>entry. truthy (objGet ps (fst entry))) hooks))"
proof (induction hooks arbitrary: w)
  case Nil
  show ?case by simp
next
  case (Cons entry hooks)
  obtain name h where e: "entry = (name, h)" by (cases entry)
  show ?case
  proof (cases "truthy (objGet ps name)")
    case True
    obtain v w1 where c: "callMatched env h [objGet ps name, JStr name] (ps, w) = (Inr v, (ps, w1))"
      using quiet by blast
    obtain w2 where "runParamHandlers env hooks (ps, w1) =
           (None, (ps, w2),
            map (\<lambda>entry. Call ParamHook (snd entry) [objGet ps (fst entry), JStr (fst entry)])
              (filter (\<lambda>entry. truthy (objGet ps (fst entry))) hooks))"
      using Cons.IH by blast
    then show ?thesis using True c by (simp add: e Let_def)
  next
    case False
    then show ?thesis using Cons.IH [of w] by (simp add: e)
  qed
qed

lemma handle_matched_order:
  assumes quiet: "\<And>h args ps w. \<exists>v w'. callMatched env h args (ps, w) = (Inr v, (ps, w'))"
    and mws: "runMiddlewares env (req_pathname req) (middlewares r) w = (Next, w1, evs)"
    and m: "match r (req_method req) (req_pathname req) = Some m"
  shows "snd (snd (handle env r req w)) =
           evs @
           map (\<lambda>entry. Call ParamHook (snd entry)
                  [objGet (m_params m) (fst entry), JStr (fst entry)])
             (filter (\<lambda>entry. truthy (objGet (m_params m) (fst entry))) (paramHandlers r)) @
           [Call RouteHandler (m_handler m) []]"
proof -
  obtain w2 where h: "runParamHandlers env (paramHandlers r) (m_params m, w1) =
           (None, (m_params m, w2),
            map (\<lambda>entry. Call ParamHook (snd entry)
                  [objGet (m_params m) (fst entry), JStr (fst entry)])
              (filter (\<lambda>entry. truthy (objGet (m_params m) (fst entry))) (paramHandlers r)))"
    using runParamHandlers_order [OF quiet] by blast
  obtain v w3 where c: "callMatched env (m_handler m) [] (m_params m, w2) = (Inr v, (m_params m, w3))"
    using quiet by blast
  show ?thesis
    using mws m h c by (simp add: handle_def Let_def)
qed

text \<open>
  Claim C7 fails on the code. The hook loop tests \<open>match.params[paramName]\<close> for
  truthiness, and \<open>match.params\<close> is a plain object: for the route \<open>GET /users\<close>,
  which binds no parameter, the hook registered for the name \<open>constructor\<close> is called
  (with the inherited \<open>Object.prototype.constructor\<close> as the value) before the route
  handler. And for the route \<open>GET /:@user/:id\<close> the name \<open>id\<close> is in the mapping of
  the match of \<open>/:@user/42\<close>, bound to \<open>undefined\<close>, and its hook is not called.
\<close>

theorem param_hook_fires_for_inherited_name:
  "match hookRouter ''GET'' ''/users'' = Some \<lparr>m_handler = 5, m_params = []\<rparr> \<and>
   handle demoEnv hookRouter \<lparr>req_method = ''GET'', req_pathname = ''/users''\<rparr> [] =
     (Resolved, [7, 5],
      [Call ParamHook 7 [JInherited ''constructor'', JStr ''constructor''],
       Call RouteHandler 5 []]) \<and>
   match atUserRouter ''GET'' ''/:@user/42'' =
     Some \<lparr>m_handler = 5, m_params = [(''@user'', JStr ''42''), (''id'', JUndefined)]\<rparr> \<and>
   handle demoEnv atUserRouter \<lparr>req_method = ''GET'', req_pathname = ''/:@user/42''\<rparr> [] =
     (Resolved, [5], [Call RouteHandler 5 []])"
  by code_simp

end
